theory Spec2Isabelle
  imports Complex_Main "HOL-Library.Sublist" "HOL-Library.Monad_Syntax"
begin

section \<open>Exceptions\<close>

text \<open>
  A Python exception is identified by the name of its class. A computation that may
  raise returns \<open>error + 'a\<close>, with \<open>Inl\<close> for the exception.
\<close>

datatype error = Raise string

abbreviation AttributeError :: error where
  "AttributeError \<equiv> Raise ''AttributeError''"

abbreviation IndexError :: error where
  "IndexError \<equiv> Raise ''IndexError''"

abbreviation TypeError :: error where
  "TypeError \<equiv> Raise ''TypeError''"

section \<open>Transition counts and the external model classes\<close>

text \<open>
  \<open>msm.rawcounts_\<close> is a square scipy sparse matrix of transition counts, one row per
  state. It is kept as two attributes: \<open>rawcounts\<close> is the array of its values, a list
  of rows, and \<open>rawcounts_coo\<close> lists the coordinates \<open>(row, col)\<close> of the entries it
  stores, as \<open>rawcounts_.tocoo()\<close> gives them. An entry that is not stored is zero; a
  stored entry may be zero.
\<close>

type_synonym matrix = "int list list"

text \<open>
  \<open>MarkovStateModel\<close> and \<open>MiniBatchKMeans\<close> are classes of the mixtape library. Only the
  attributes the source reads are kept (\<open>rawcounts\<close> is \<open>rawcounts_\<close>, \<open>labels\<close> is \<open>labels_\<close>:
  a name cannot end in an underscore here); their \<open>fit\<close> methods are parameters of the
  functions that call them.
\<close>

record MarkovStateModel =
  lag_time :: int
  n_timescales :: nat
  rawcounts :: matrix
  rawcounts_coo :: "(nat \<times> nat) list"

record MiniBatchKMeans =
  n_clusters :: nat
  labels :: "nat list list"

record ClusterModeller =
  cm_msm :: "MarkovStateModel option"
  cm_clusterer :: "MiniBatchKMeans option"

record TMatModeller =
  tm_msm :: "MarkovStateModel option"
  tm_found_states :: "nat list option"

text \<open>\<open>__init__\<close> of the two modellers: every field is \<open>None\<close>.\<close>

definition ClusterModeller_init :: ClusterModeller where
  "ClusterModeller_init = \<lparr>cm_msm = None, cm_clusterer = None\<rparr>"

definition TMatModeller_init :: TMatModeller where
  "TMatModeller_init = \<lparr>tm_msm = None, tm_found_states = None\<rparr>"

text \<open>
  The \<open>counts\<close> property, \<open>return self.msm.rawcounts_\<close>: while \<open>self.msm\<close> is \<open>None\<close> the
  attribute lookup raises AttributeError.
\<close>

definition ClusterModeller_counts :: "ClusterModeller \<Rightarrow> error + matrix" where
  "ClusterModeller_counts self =
     (case cm_msm self of None \<Rightarrow> Inl AttributeError | Some msm \<Rightarrow> Inr (rawcounts msm))"

definition TMatModeller_counts :: "TMatModeller \<Rightarrow> error + matrix" where
  "TMatModeller_counts self =
     (case tm_msm self of None \<Rightarrow> Inl AttributeError | Some msm \<Rightarrow> Inr (rawcounts msm))"

text \<open>The adapter holds either kind of modeller and reads its \<open>counts\<close>.\<close>

datatype modeller = Cluster ClusterModeller | TMat TMatModeller

fun counts :: "modeller \<Rightarrow> error + matrix" where
  "counts (Cluster m) = ClusterModeller_counts m"
| "counts (TMat m) = TMatModeller_counts m"

section \<open>Simulation parameters\<close>

record AdaptiveParams =
  tpr :: int
  spt :: int
  run_id :: int
  rundir :: "string option"
  traj_dir :: string
  sstate_dir :: string
  msms_dir :: string
  figs_dir :: "string option"
  priv_round_i :: int

text \<open>\<open>AdaptiveParams.__init__(spt, tpr, run_id=0)\<close>; \<open>figs_dir\<close> is not assigned there,
  and \<open>priv_round_i\<close> is the attribute \<open>_round_i\<close>.\<close>

definition AdaptiveParams_init :: "int \<Rightarrow> int \<Rightarrow> int \<Rightarrow> AdaptiveParams" where
  "AdaptiveParams_init s t r =
     \<lparr>tpr = t, spt = s, run_id = r, rundir = None, traj_dir = '''', sstate_dir = '''',
      msms_dir = '''', figs_dir = None, priv_round_i = - 1\<rparr>"

section \<open>SortCountsAdapter\<close>

text \<open>
  \<open>np.argsort\<close> is numpy's. The source calls it with the default \<open>kind\<close>, which numpy
  documents as not stable. In \<open>adapt\<close> it is the parameter \<open>argsort\<close>; \<open>argsort_ok xs js\<close>
  is the documented contract for one call: \<open>js\<close> is a permutation of the indices of \<open>xs\<close>
  that lists the values of \<open>xs\<close> in non-decreasing order.
\<close>

definition argsort_ok :: "int list \<Rightarrow> nat list \<Rightarrow> bool" where
  "argsort_ok xs js \<longleftrightarrow> sort js = [0..<length xs] \<and> sorted (map (\<lambda>j. xs ! j) js)"

text \<open>\<open>counts.sum(axis=1)\<close>, flattened: the sum of each row.\<close>

definition counts_per_state_of :: "matrix \<Rightarrow> int list" where
  "counts_per_state_of cnts = map sum_list cnts"

text \<open>
  The slice \<open>xs[:k]\<close> of Python: a negative \<open>k\<close> counts from the end.
\<close>

definition slice_to :: "'a list \<Rightarrow> int \<Rightarrow> 'a list" where
  "slice_to xs k = (if 0 \<le> k then take (nat k) xs else take (nat (int (length xs) + k)) xs)"

text \<open>
  \<open>SortCountsAdapter.adapt\<close>. \<open>found_states\<close> is the constant \<open>None\<close> of the source, so the
  projection onto the found states is never taken. The two logging calls are left out;
  the second one indexes \<open>counts_per_state\<close> with the result, which raises IndexError
  on an index out of range.
\<close>

definition adapt :: "(int list \<Rightarrow> nat list) \<Rightarrow> modeller \<Rightarrow> AdaptiveParams \<Rightarrow> error + nat list" where
  "adapt argsort modeller params =
     (case counts modeller of
        Inl e \<Rightarrow> Inl e
      | Inr cnts \<Rightarrow>
          (let found_states = (None :: nat list option);
               n_tpr = tpr params;
               counts_per_state = counts_per_state_of cnts;
               counts_per_state =
                 (case found_states of
                    None \<Rightarrow> counts_per_state
                  | Some fs \<Rightarrow> map (\<lambda>s. counts_per_state ! s) fs);
               states_to_sample = argsort counts_per_state;
               states_to_sample =
                 (if int (length states_to_sample) > n_tpr
                  then slice_to states_to_sample n_tpr else states_to_sample)
           in if list_all (\<lambda>s. s < length counts_per_state) states_to_sample
              then Inr states_to_sample else Inl IndexError))"

text \<open>
  The order the specification asks of the result, for comparison with the code: by
  count, and by state index among equal counts.
\<close>

definition sorted_by_count_then_index :: "int list \<Rightarrow> nat list \<Rightarrow> bool" where
  "sorted_by_count_then_index cps states \<longleftrightarrow>
     sorted_wrt (\<lambda>a b. cps ! a < cps ! b \<or> (cps ! a = cps ! b \<and> a < b)) states"

subsection \<open>numpy's default argsort\<close>

text \<open>
  For concrete runs, \<open>np_argsort\<close> follows the default \<open>kind\<close> of numpy, the index
  quicksort \<open>aquicksort\<close> of \<open>npysort\<close>: a range of more than \<open>SMALL_QUICKSORT + 1\<close>
  elements is partitioned around the median of its first, middle and last element, a
  shorter range is sorted by insertion. \<open>v\<close> is the array of keys, \<open>ts\<close> the index array
  \<open>tosort\<close>, and the pointers \<open>pl\<close>, \<open>pm\<close>, \<open>pr\<close>, \<open>pi\<close> (here \<open>i\<close>), \<open>pj\<close> (here
  \<open>j\<close>) are positions in \<open>ts\<close>. The two partitions are sorted left to right, where numpy
  keeps the larger one on a stack: they do not overlap, so the result is the same. The
  switch to heapsort that later numpy versions make at partition depth
  \<open>2 * floor(log2 n)\<close> is not modelled.
\<close>

definition SMALL_QUICKSORT :: nat where
  "SMALL_QUICKSORT = 15"

definition INTP_SWAP :: "nat list \<Rightarrow> nat \<Rightarrow> nat \<Rightarrow> nat list" where
  "INTP_SWAP ts a b = ts[a := ts ! b, b := ts ! a]"

text \<open>
  The insertion sort of the range \<open>pl..pr\<close>:
  \<^verbatim>\<open>while (pj > pl && LT(vp, v[*pk])) { *pj-- = *pk--; }   *pj = vi;\<close>
\<close>

fun shift_up :: "int list \<Rightarrow> nat list \<Rightarrow> nat \<Rightarrow> int \<Rightarrow> nat \<Rightarrow> nat list \<times> nat" where
  "shift_up v ts pl vp 0 = (ts, 0)"
| "shift_up v ts pl vp (Suc k) =
     (if Suc k > pl \<and> vp < v ! (ts ! k)
      then shift_up v (ts[Suc k := ts ! k]) pl vp k else (ts, Suc k))"

definition insert_at :: "int list \<Rightarrow> nat \<Rightarrow> nat \<Rightarrow> nat list \<Rightarrow> nat list" where
  "insert_at v pl i ts =
     (let vi = ts ! i; vp = v ! vi; (ts', j) = shift_up v ts pl vp i in ts'[j := vi])"

definition insertion_sort :: "int list \<Rightarrow> nat list \<Rightarrow> nat \<Rightarrow> nat \<Rightarrow> nat list" where
  "insertion_sort v ts pl pr = fold (insert_at v pl) [pl + 1 ..< pr + 1] ts"

text \<open>
  The two scans of the partition step, \<^verbatim>\<open>do ++pi; while (LT(v[*pi], vp));\<close> and
  \<^verbatim>\<open>do --pj; while (LT(vp, v[*pj]));\<close>. In C nothing but the pivot and the median
  step stops them; a scan that leaves the array has no value here.
\<close>

partial_function (option) scan_up :: "int list \<Rightarrow> nat list \<Rightarrow> int \<Rightarrow> nat \<Rightarrow> nat option" where
  "scan_up v ts vp i =
     (if i + 1 < length ts
      then (if v ! (ts ! (i + 1)) < vp then scan_up v ts vp (i + 1) else Some (i + 1))
      else None)"

partial_function (option) scan_down :: "int list \<Rightarrow> nat list \<Rightarrow> int \<Rightarrow> nat \<Rightarrow> nat option" where
  "scan_down v ts vp j =
     (if 0 < j
      then (if vp < v ! (ts ! (j - 1)) then scan_down v ts vp (j - 1) else Some (j - 1))
      else None)"

partial_function (option) partition_loop ::
  "int list \<Rightarrow> nat list \<Rightarrow> int \<Rightarrow> nat \<Rightarrow> nat \<Rightarrow> (nat list \<times> nat) option" where
  "partition_loop v ts vp i j =
     do {
       i' \<leftarrow> scan_up v ts vp i;
       j' \<leftarrow> scan_down v ts vp j;
       if i' \<ge> j' then Some (ts, i')
       else partition_loop v (INTP_SWAP ts i' j') vp i' j'
     }"

definition median3 :: "int list \<Rightarrow> nat list \<Rightarrow> nat \<Rightarrow> nat \<Rightarrow> nat \<Rightarrow> nat list" where
  "median3 v ts pl pm pr =
     (let ts = (if v ! (ts ! pm) < v ! (ts ! pl) then INTP_SWAP ts pm pl else ts);
          ts = (if v ! (ts ! pr) < v ! (ts ! pm) then INTP_SWAP ts pr pm else ts);
          ts = (if v ! (ts ! pm) < v ! (ts ! pl) then INTP_SWAP ts pm pl else ts)
      in ts)"

partial_function (option) aquicksort ::
  "int list \<Rightarrow> nat list \<Rightarrow> nat \<Rightarrow> nat \<Rightarrow> nat list option" where
  "aquicksort v ts pl pr =
     (if pr - pl > SMALL_QUICKSORT
      then
        (let pm = pl + (pr - pl) div 2;
             ts = median3 v ts pl pm pr;
             vp = v ! (ts ! pm);
             ts = INTP_SWAP ts pm (pr - 1)
         in do {
              (ts, i) \<leftarrow> partition_loop v ts vp pl (pr - 1);
              ts1 \<leftarrow> aquicksort v (INTP_SWAP ts i (pr - 1)) pl (i - 1);
              aquicksort v ts1 (i + 1) pr
            })
      else Some (insertion_sort v ts pl pr))"

declare scan_up.simps [code] scan_down.simps [code] partition_loop.simps [code]
  aquicksort.simps [code]

definition np_argsort :: "int list \<Rightarrow> nat list" where
  "np_argsort xs =
     (case aquicksort xs [0..<length xs] 0 (length xs - 1) of Some ts \<Rightarrow> ts | None \<Rightarrow> [])"

section \<open>TMatModeller\<close>

text \<open>\<open>np.unique\<close>: the sorted distinct elements.\<close>

definition np_unique :: "nat list \<Rightarrow> nat list" where
  "np_unique xs = sort (remdups xs)"

text \<open>
  \<open>TMatModeller._model(trajs, lagtime)\<close>. \<open>fit\<close> stands for building a
  \<open>MarkovStateModel(lag_time=lagtime, n_timescales=10)\<close> and fitting it: it returns the
  raw counts, as their values and the coordinates of the stored entries, or the exception
  the library raises. \<open>countscoo.row\<close> and \<open>countscoo.col\<close> are the rows and the columns
  of all stored entries. The result is the exception raised, if any, and the modeller as
  the call leaves it.
\<close>

definition TMatModeller_model ::
  "(int \<Rightarrow> 'a list \<Rightarrow> error + matrix \<times> (nat \<times> nat) list) \<Rightarrow> 'a list \<Rightarrow> int \<Rightarrow> TMatModeller
     \<Rightarrow> error option \<times> TMatModeller" where
  "TMatModeller_model fit trajs lagtime self =
     (case fit lagtime trajs of
        Inl e \<Rightarrow> (Some e, self)
      | Inr (rc, coo) \<Rightarrow>
          (let msm = \<lparr>lag_time = lagtime, n_timescales = 10, rawcounts = rc,
                      rawcounts_coo = coo\<rparr>;
               self = self\<lparr>tm_msm := Some msm\<rparr>;
               countscoo = rawcounts_coo msm;
               found_states = map fst countscoo @ map snd countscoo
           in (None, self\<lparr>tm_found_states := Some (np_unique found_states)\<rparr>)))"

section \<open>ClusterModeller\<close>

text \<open>
  The number of clusters, \<open>int(np.sqrt(n_datapoints / 2))\<close> with
  \<open>n_datapoints = np.sum([len(traj) for traj in trajs_vec])\<close>. The square root is taken
  in the reals; the double of numpy gives the same integer for every frame count below
  \<open>2 ^ 52\<close>.
\<close>

definition count_clusters :: "'f list list \<Rightarrow> nat" where
  "count_clusters trajs_vec =
     (let n_datapoints = sum_list (map length trajs_vec)
      in nat \<lfloor>sqrt (real n_datapoints / 2)\<rfloor>)"


section \<open>Loading the trajectories of the rounds\<close>

text \<open>\<open>os.path.join\<close> of two components, on POSIX.\<close>

definition pjoin :: "string \<Rightarrow> string \<Rightarrow> string" where
  "pjoin a b =
     (if b \<noteq> [] \<and> hd b = CHR ''/'' then b
      else if a = [] \<or> last a = CHR ''/'' then a @ b
      else a @ ''/'' @ b)"









section \<open>The directories of a run\<close>

text \<open>
  The file system is the set of the directories that exist. \<open>os.mkdir\<close> raises
  FileExistsError on a path that exists and FileNotFoundError when the parent directory
  is missing; both are subclasses of OSError, as is every other failure of \<open>os.mkdir\<close>
  on a string.
\<close>

type_synonym fs = "string set"

definition dirname :: "string \<Rightarrow> string" where
  "dirname p =
     (let head = rev (dropWhile (\<lambda>c. c \<noteq> CHR ''/'') (rev p))
      in if list_all (\<lambda>c. c = CHR ''/'') head then head
         else rev (dropWhile (\<lambda>c. c = CHR ''/'') (rev head)))"

definition os_mkdir :: "fs \<Rightarrow> string \<Rightarrow> error + fs" where
  "os_mkdir fs path =
     (if path \<in> fs then Inl (Raise ''FileExistsError'')
      else if dirname path \<noteq> [] \<and> dirname path \<notin> fs then Inl (Raise ''FileNotFoundError'')
      else Inr (insert path fs))"

definition is_OSError :: "error \<Rightarrow> bool" where
  "is_OSError e \<longleftrightarrow>
     e \<in> set [Raise ''OSError'', Raise ''FileExistsError'', Raise ''FileNotFoundError'',
              Raise ''NotADirectoryError'', Raise ''PermissionError'']"

text \<open>The statements of the \<open>try\<close> block: each directory is made until one call raises.\<close>

fun mkdirs :: "fs \<Rightarrow> string list \<Rightarrow> error option \<times> fs" where
  "mkdirs fs [] = (None, fs)"
| "mkdirs fs (d # ds) =
     (case os_mkdir fs d of Inl e \<Rightarrow> (Some e, fs) | Inr fs' \<Rightarrow> mkdirs fs' ds)"

text \<open>A record of the log: \<open>log.warning('Skipping %s (%s)', rundir, e)\<close>.\<close>

datatype log_record = Warning string error

text \<open>
  \<open>AdaptiveParams.make_directories()\<close>. The result is what the call returns or raises, the
  parameters with the directory names assigned, the file system and the records logged.
  \<open>pjoin(rundir, ...)\<close> raises TypeError while \<open>rundir\<close> is \<open>None\<close>.
\<close>

definition make_directories ::
  "AdaptiveParams \<Rightarrow> fs \<Rightarrow> (error + string \<times> bool) \<times> AdaptiveParams \<times> fs \<times> log_record list" where
  "make_directories self fs =
     (case rundir self of
        None \<Rightarrow> (Inl TypeError, self, fs, [])
      | Some rd \<Rightarrow>
          (let self = self\<lparr>traj_dir := pjoin rd ''trajs''\<rparr>;
               self = self\<lparr>sstate_dir := pjoin rd ''sstates''\<rparr>;
               self = self\<lparr>msms_dir := pjoin rd ''msms''\<rparr>;
               self = self\<lparr>figs_dir := Some (pjoin rd ''figs'')\<rparr>
           in case mkdirs fs [traj_dir self, sstate_dir self, msms_dir self, pjoin rd ''figs''] of
                (Some e, fs') \<Rightarrow>
                  if is_OSError e then (Inr ('''', False), self, fs', [Warning rd e])
                  else (Inl e, self, fs', [])
              | (None, fs') \<Rightarrow> (Inr (traj_dir self, True), self, fs', [])))"

section \<open>Concrete runs\<close>

text \<open>
  The coordinates of the non-zero values of a matrix, row by row, and the condition that
  a sparse matrix stores exactly these: every non-zero entry is stored, and no zero is.
  A count matrix that a library assembles from the transitions it has seen meets it; the
  source does not test it.
\<close>

definition nonzero_coords :: "matrix \<Rightarrow> (nat \<times> nat) list" where
  "nonzero_coords cnts =
     concat (map (\<lambda>(r, row). map (\<lambda>(c, x). (r, c)) (filter (\<lambda>(c, x). x \<noteq> 0) (enumerate 0 row)))
                 (enumerate 0 cnts))"


text \<open>
  For concrete runs, \<open>sliding_counts\<close> stands for the fit of a \<open>MarkovStateModel\<close> on
  sequences of state indices: entry \<open>(i, j)\<close> counts the pairs of frames \<open>lagtime\<close> apart
  that go from state \<open>i\<close> to state \<open>j\<close>, over all trajectories, the matrix has one row
  per state index up to the largest one seen, and the entries stored are the non-zero
  ones. With no frame at all there is no largest index (numpy raises ValueError).
\<close>

definition sliding_counts :: "int \<Rightarrow> nat list list \<Rightarrow> error + matrix \<times> (nat \<times> nat) list" where
  "sliding_counts lagtime trajs =
     (let frames = concat trajs
      in if frames = [] then Inl (Raise ''ValueError'')
         else
           (let n = fold max frames 0 + 1;
                pairs = concat (map (\<lambda>t. zip t (drop (nat lagtime) t)) trajs);
                cnts = map (\<lambda>i. map (\<lambda>j. int (count_list pairs (i, j))) [0..<n]) [0..<n]
            in Inr (cnts, nonzero_coords cnts)))"

text \<open>A \<open>TMatModeller\<close> after \<open>_model(trajs, lagtime)\<close> on a fresh object.\<close>

definition tmat_built :: "nat list list \<Rightarrow> int \<Rightarrow> TMatModeller" where
  "tmat_built trajs lagtime =
     snd (TMatModeller_model sliding_counts trajs lagtime TMatModeller_init)"

text \<open>
  Three trajectories whose counts at lag time 1 are \<open>[[5,0,0],[2,3,0],[0,1,0]]\<close>; one
  trajectory that visits state 1 never; one trajectory around a ring of 18 states, which
  leaves every state once.
\<close>

definition three_state_trajs :: "nat list list" where
  "three_state_trajs = [[0, 0, 0, 0, 0, 0], [1, 1, 1, 1, 0], [2, 1, 0]]"

definition skipping_trajs :: "nat list list" where
  "skipping_trajs = [[0, 2, 0]]"

definition ring_trajs :: "nat list list" where
  "ring_trajs = [[0..<18] @ [0]]"



text \<open>Parameters of a run in the directory \<open>run\<close>.\<close>

definition run_params :: AdaptiveParams where
  "run_params = (AdaptiveParams_init 10 2 0)\<lparr>rundir := Some ''run''\<rparr>"

section \<open>Properties of the adapter\<close>

lemma slice_to_prefix: "prefix (slice_to xs k) xs"
  by (simp add: slice_to_def take_is_prefix)

lemma argsort_ok_length: "argsort_ok xs js \<Longrightarrow> length js = length xs"
  unfolding argsort_ok_def by (metis length_sort length_upt diff_zero)

lemma argsort_ok_distinct: "argsort_ok xs js \<Longrightarrow> distinct js"
  unfolding argsort_ok_def by (metis distinct_sort distinct_upt)

lemma argsort_ok_set: "argsort_ok xs js \<Longrightarrow> set js = {0..<length xs}"
  unfolding argsort_ok_def by (metis set_sort set_upt)

text \<open>
  The contract can be met on every array: the stable sort of the indices by their
  values meets it.
\<close>

lemma argsort_ok_stable: "argsort_ok xs (sort_key (\<lambda>j. xs ! j) [0..<length xs])"
proof -
  let ?js = "sort_key (\<lambda>j. xs ! j) [0..<length xs]"
  have "sorted (sort ?js)" and "distinct (sort ?js)" and "set (sort ?js) = set [0..<length xs]"
    by simp_all
  then have "sort ?js = [0..<length xs]"
    by (intro sorted_distinct_set_unique) simp_all
  then show ?thesis by (simp add: argsort_ok_def)
qed

lemma length_counts_per_state: "length (counts_per_state_of cnts) = length cnts"
  by (simp add: counts_per_state_of_def)

lemma slice_to_set: "set (slice_to xs k) \<subseteq> set xs"
  using slice_to_prefix [of xs k] by (rule set_mono_prefix)

lemma adapt_eq:
  assumes "counts modeller = Inr cnts"
    and "argsort_ok (counts_per_state_of cnts) (argsort (counts_per_state_of cnts))"
  shows "adapt argsort modeller params =
    Inr (if int (length cnts) > tpr params
         then slice_to (argsort (counts_per_state_of cnts)) (tpr params)
         else argsort (counts_per_state_of cnts))"
proof -
  let ?cps = "counts_per_state_of cnts"
  let ?js = "argsort ?cps"
  have len: "length ?js = length cnts"
    using argsort_ok_length [OF assms(2)] by (simp add: length_counts_per_state)
  have inr: "\<forall>s\<in>set ?js. s < length ?cps"
    using argsort_ok_set [OF assms(2)] by simp
  have inr': "\<forall>s\<in>set (slice_to ?js (tpr params)). s < length ?cps"
    using inr slice_to_set [of ?js "tpr params"] by blast
  show ?thesis
    using assms(1) len inr inr' by (simp add: adapt_def Let_def list_all_iff)
qed

lemma adapt_prefix:
  assumes "counts modeller = Inr cnts"
    and "argsort_ok (counts_per_state_of cnts) (argsort (counts_per_state_of cnts))"
    and "adapt argsort modeller params = Inr states"
  shows "prefix states (argsort (counts_per_state_of cnts))"
  using assms(3) slice_to_prefix [of "argsort (counts_per_state_of cnts)" "tpr params"]
  by (simp add: adapt_eq [where argsort = argsort, OF assms(1,2)] split: if_splits)

lemma three_state_counts:
  "counts (TMat (tmat_built three_state_trajs 1)) = Inr [[5, 0, 0], [2, 3, 0], [0, 1, 0]]"
  by code_simp

lemma three_state_argsort_ok:
  "argsort_ok (counts_per_state_of [[5, 0, 0], [2, 3, 0], [0, 1, 0]])
     (np_argsort (counts_per_state_of [[5, 0, 0], [2, 3, 0], [0, 1, 0]]))"
  by code_simp

lemma three_state_adapt:
  "adapt np_argsort (TMat (tmat_built three_state_trajs 1)) (AdaptiveParams_init 10 2 0) = Inr [2, 0]"
  by code_simp

text \<open>
  With a built model and a positive \<open>tpr\<close>, \<open>adapt\<close> raises nothing and returns the first
  \<open>tpr\<close> entries of the argsort of the row sums, or all of them when the count matrix
  has fewer rows.
\<close>

lemma adapt_length:
  assumes "counts modeller = Inr cnts"
    and "argsort_ok (counts_per_state_of cnts) (argsort (counts_per_state_of cnts))"
    and "0 < tpr params"
  shows "\<exists>states. adapt argsort modeller params = Inr states
           \<and> length states = min (nat (tpr params)) (length cnts)
           \<and> states = take (nat (tpr params)) (argsort (counts_per_state_of cnts))"
proof -
  have len: "length (argsort (counts_per_state_of cnts)) = length cnts"
    using argsort_ok_length [OF assms(2)] by (simp add: length_counts_per_state)
  show ?thesis
    using assms(3) len by (auto simp: adapt_eq [where argsort = argsort, OF assms(1,2)] slice_to_def)
qed

text \<open>
  C10: with an \<open>n\<close> by \<open>n\<close> count matrix, the states \<open>adapt\<close> returns are pairwise
  distinct and each is in the range \<open>0..n-1\<close>.
\<close>

theorem adapt_distinct_in_range:
  assumes "counts modeller = Inr cnts"
    and "argsort_ok (counts_per_state_of cnts) (argsort (counts_per_state_of cnts))"
    and "adapt argsort modeller params = Inr states"
  shows "distinct states \<and> (\<forall>s\<in>set states. s < length cnts)"
proof -
  let ?js = "argsort (counts_per_state_of cnts)"
  have p: "prefix states ?js" by (rule adapt_prefix [where argsort = argsort, OF assms])
  have "distinct ?js" by (rule argsort_ok_distinct [OF assms(2)])
  then have d: "distinct states" using p by (auto simp: prefix_def)
  have "set states \<subseteq> set ?js" using p by (rule set_mono_prefix)
  then have "\<forall>s\<in>set states. s < length cnts"
    using argsort_ok_set [OF assms(2)] by (auto simp: length_counts_per_state)
  with d show ?thesis by simp
qed

theorem adapt_distinct_in_range_witness:
  "counts (TMat (tmat_built three_state_trajs 1)) = Inr [[5, 0, 0], [2, 3, 0], [0, 1, 0]]
   \<and> argsort_ok (counts_per_state_of [[5, 0, 0], [2, 3, 0], [0, 1, 0]])
        (np_argsort (counts_per_state_of [[5, 0, 0], [2, 3, 0], [0, 1, 0]]))
   \<and> adapt np_argsort (TMat (tmat_built three_state_trajs 1)) (AdaptiveParams_init 10 2 0)
        = Inr [2, 0]
   \<and> distinct [2, 0 :: nat]
   \<and> list_all (\<lambda>s. s < length [[5, 0, 0], [2, 3, 0], [0, 1, 0 :: int]]) [2, 0]"
  using adapt_distinct_in_range [where argsort = np_argsort,
      OF three_state_counts three_state_argsort_ok three_state_adapt]
    three_state_counts three_state_argsort_ok three_state_adapt
  by simp

lemma sorted_prefix: "prefix xs ys \<Longrightarrow> sorted ys \<Longrightarrow> sorted xs"
  by (auto simp: prefix_def sorted_append)

lemma sorted_wrt_prefix: "prefix xs ys \<Longrightarrow> sorted_wrt P ys \<Longrightarrow> sorted_wrt P xs"
  by (auto simp: prefix_def sorted_wrt_append)

text \<open>
  C2, as the specification states it, fails on the code: ties between equal counts are
  not broken by ascending state index. On a ring of 18 states every state has count 1,
  and numpy's default argsort, which partitions an array of more than 16 elements,
  returns the states 0, 15, 14 for \<open>tpr = 3\<close>.
\<close>

theorem adapt_ties_counterexample:
  "counts (TMat (tmat_built ring_trajs 1)) =
     Inr (map (\<lambda>i. map (\<lambda>j. if j = (i + 1) mod 18 then 1 else 0) [0..<18]) [0..<18])
   \<and> counts_per_state_of
        (map (\<lambda>i. map (\<lambda>j. if j = (i + 1) mod 18 then 1 else 0) [0..<18]) [0..<18])
       = replicate 18 1
   \<and> argsort_ok (replicate 18 1) (np_argsort (replicate 18 1))
   \<and> adapt np_argsort (TMat (tmat_built ring_trajs 1)) (AdaptiveParams_init 10 3 0)
       = Inr [0, 15, 14]
   \<and> \<not> sorted_by_count_then_index (replicate 18 1) [0, 15, 14]"
  by code_simp

text \<open>
  C2: with a built model, the states \<open>adapt\<close> returns are in non-decreasing order of
  \<open>counts_per_state\<close>. The order among equal counts is the one \<open>np.argsort\<close> leaves:
  \<open>adapt\<close> keeps an order by ascending state index when the argsort delivers one, and
  does not make one. For the counts \<open>[[5,0,0],[2,3,0],[0,1,0]]\<close> and \<open>tpr = 2\<close> the result
  is \<open>[2, 0]\<close>. \<open>adapt\<close> is a function of the counts and of \<open>tpr\<close>, so the same input
  gives the same output.
\<close>

theorem adapt_sorted_by_counts:
  assumes "counts modeller = Inr cnts"
    and "argsort_ok (counts_per_state_of cnts) (argsort (counts_per_state_of cnts))"
    and "adapt argsort modeller params = Inr states"
  shows "sorted (map (\<lambda>s. counts_per_state_of cnts ! s) states)
       \<and> (sorted_by_count_then_index (counts_per_state_of cnts) (argsort (counts_per_state_of cnts))
            \<longrightarrow> sorted_by_count_then_index (counts_per_state_of cnts) states)
       \<and> adapt np_argsort (TMat (tmat_built three_state_trajs 1)) (AdaptiveParams_init 10 2 0)
           = Inr [2, 0]"
proof -
  let ?cps = "counts_per_state_of cnts"
  have p: "prefix states (argsort ?cps)"
    by (rule adapt_prefix [where argsort = argsort, OF assms])
  then have "prefix (map (\<lambda>s. ?cps ! s) states) (map (\<lambda>s. ?cps ! s) (argsort ?cps))"
    by (rule map_mono_prefix)
  moreover have "sorted (map (\<lambda>s. ?cps ! s) (argsort ?cps))"
    using assms(2) by (simp add: argsort_ok_def)
  ultimately have a: "sorted (map (\<lambda>s. ?cps ! s) states)" by (rule sorted_prefix)
  have b: "sorted_by_count_then_index ?cps (argsort ?cps)
      \<longrightarrow> sorted_by_count_then_index ?cps states"
    unfolding sorted_by_count_then_index_def using sorted_wrt_prefix [OF p] by blast
  from a b three_state_adapt show ?thesis by simp
qed

theorem adapt_sorted_by_counts_witness:
  "counts (TMat (tmat_built three_state_trajs 1)) = Inr [[5, 0, 0], [2, 3, 0], [0, 1, 0]]
   \<and> argsort_ok (counts_per_state_of [[5, 0, 0], [2, 3, 0], [0, 1, 0]])
        (np_argsort (counts_per_state_of [[5, 0, 0], [2, 3, 0], [0, 1, 0]]))
   \<and> adapt np_argsort (TMat (tmat_built three_state_trajs 1)) (AdaptiveParams_init 10 2 0)
        = Inr [2, 0]
   \<and> sorted (map (\<lambda>s. counts_per_state_of [[5, 0, 0], [2, 3, 0], [0, 1, 0]] ! s) [2, 0])
   \<and> sorted_by_count_then_index (counts_per_state_of [[5, 0, 0], [2, 3, 0], [0, 1, 0]]) [2, 0]"
proof -
  have st: "sorted_by_count_then_index (counts_per_state_of [[5, 0, 0], [2, 3, 0], [0, 1, 0]])
      (np_argsort (counts_per_state_of [[5, 0, 0], [2, 3, 0], [0, 1, 0]]))"
    by code_simp
  show ?thesis
    using adapt_sorted_by_counts [where argsort = np_argsort,
        OF three_state_counts three_state_argsort_ok three_state_adapt]
      three_state_counts three_state_argsort_ok three_state_adapt st
    by blast
qed

text \<open>
  C1: the states returned should be found states. \<open>adapt\<close> never reads
  \<open>found_states\<close> of the modeller: after the trajectory \<open>[0, 2, 0]\<close> the found states are
  0 and 2, and \<open>adapt\<close> returns state 1 for \<open>tpr = 1\<close>.
\<close>

theorem adapt_ignores_found_states:
  "tm_found_states (tmat_built skipping_trajs 1) = Some [0, 2]
   \<and> adapt np_argsort (TMat (tmat_built skipping_trajs 1)) (AdaptiveParams_init 10 1 0) = Inr [1]
   \<and> 1 \<notin> set [0, 2 :: nat]"
  by code_simp

text \<open>
  C3: the number of states returned should be \<open>min(tpr, |C|)\<close> for the candidate set \<open>C\<close>,
  which for a \<open>TMatModeller\<close> is its found states. \<open>adapt\<close> takes every state of the count
  matrix for a candidate: after the trajectory \<open>[0, 2, 0]\<close> there are two found states,
  and \<open>adapt\<close> returns three states for \<open>tpr = 3\<close>, one of them not found.
\<close>

theorem adapt_exceeds_found_states:
  "tm_found_states (tmat_built skipping_trajs 1) = Some [0, 2]
   \<and> adapt np_argsort (TMat (tmat_built skipping_trajs 1)) (AdaptiveParams_init 10 3 0)
       = Inr [1, 0, 2]
   \<and> min (nat (tpr (AdaptiveParams_init 10 3 0))) (length [0, 2 :: nat]) = 2
   \<and> length [1, 0, 2 :: nat] = 3"
  by code_simp

section \<open>Properties of the modellers\<close>










text \<open>
  C7, as the specification states it, fails on the code: reading \<open>counts\<close> before a
  build does not raise NotBuiltError, and \<open>adapt\<close> does not raise ModelNotBuiltError.
\<close>

theorem counts_before_build_counterexample:
  "ClusterModeller_counts ClusterModeller_init \<noteq> Inl (Raise ''NotBuiltError'')
   \<and> TMatModeller_counts TMatModeller_init \<noteq> Inl (Raise ''NotBuiltError'')
   \<and> adapt np_argsort (TMat TMatModeller_init) (AdaptiveParams_init 10 2 0)
       \<noteq> Inl (Raise ''ModelNotBuiltError'')"
  by (simp add: adapt_def ClusterModeller_counts_def TMatModeller_counts_def
      ClusterModeller_init_def TMatModeller_init_def)

text \<open>
  C7: reading \<open>counts\<close> of a modeller before a build raises AttributeError, and so
  does \<open>adapt\<close> on such a modeller, whatever the parameters.
\<close>

theorem counts_before_build:
  "ClusterModeller_counts ClusterModeller_init = Inl AttributeError
   \<and> TMatModeller_counts TMatModeller_init = Inl AttributeError
   \<and> adapt argsort (Cluster ClusterModeller_init) params = Inl AttributeError
   \<and> adapt argsort (TMat TMatModeller_init) params = Inl AttributeError"
  by (simp add: adapt_def ClusterModeller_counts_def TMatModeller_counts_def
      ClusterModeller_init_def TMatModeller_init_def)

lemma floor_sqrt_half:
  fixes n :: nat
  defines "k \<equiv> nat \<lfloor>sqrt (real n / 2)\<rfloor>"
  shows "2 * k ^ 2 \<le> n \<and> n < 2 * (k + 1) ^ 2"
proof -
  let ?x = "real n / 2"
  have nn: "0 \<le> sqrt ?x" by simp
  then have fl: "0 \<le> \<lfloor>sqrt ?x\<rfloor>" by simp
  have rk: "real k = of_int \<lfloor>sqrt ?x\<rfloor>" using fl by (simp add: k_def)
  have lo: "real k \<le> sqrt ?x" unfolding rk by (rule of_int_floor_le)
  have hi: "sqrt ?x < real (k + 1)" unfolding of_nat_add rk by simp
  from lo have "(real k)\<^sup>2 \<le> (sqrt ?x)\<^sup>2" by (intro power_mono) simp_all
  then have a: "(real k)\<^sup>2 \<le> ?x" by simp
  from hi have "(sqrt ?x)\<^sup>2 < (real (k + 1))\<^sup>2" by (intro power_strict_mono) simp_all
  then have b: "?x < (real (k + 1))\<^sup>2" by simp
  from a have "real (2 * k ^ 2) \<le> real n" by simp
  then have A: "2 * k ^ 2 \<le> n" by (simp only: of_nat_le_iff)
  from b have "real n < 2 * (real (k + 1))\<^sup>2" by simp
  then have "real n < real (2 * (k + 1) ^ 2)" by (simp only: of_nat_mult of_nat_power of_nat_numeral)
  then have B: "n < 2 * (k + 1) ^ 2" by (simp only: of_nat_less_iff)
  from A B show ?thesis by simp
qed

lemma count_clusters_bounds:
  "2 * (count_clusters trajs_vec) ^ 2 \<le> sum_list (map length trajs_vec)
   \<and> sum_list (map length trajs_vec) < 2 * (count_clusters trajs_vec + 1) ^ 2"
proof -
  have "count_clusters trajs_vec = nat \<lfloor>sqrt (real (sum_list (map length trajs_vec)) / 2)\<rfloor>"
    by (simp add: count_clusters_def Let_def)
  then show ?thesis using floor_sqrt_half [of "sum_list (map length trajs_vec)"] by simp
qed

lemma count_clusters_small:
  "sum_list (map length trajs_vec) < 2 \<Longrightarrow> count_clusters trajs_vec = 0"
proof (rule ccontr)
  assume n: "sum_list (map length trajs_vec) < 2" and k: "count_clusters trajs_vec \<noteq> 0"
  from k have "1 \<le> (count_clusters trajs_vec) ^ 2" by (simp add: Suc_le_eq)
  with count_clusters_bounds [of trajs_vec] n show False by linarith
qed

text \<open>
  C4, as the specification states it, fails on the code: with no frame, or with one
  frame, the number of clusters is 0.
\<close>

theorem count_clusters_counterexample:
  "count_clusters ([] :: unit list list) = 0 \<and> count_clusters [[()]] = 0
   \<and> \<not> 1 \<le> count_clusters [[()]]"
  by (simp add: count_clusters_small)

text \<open>
  C4: the number of clusters is \<open>floor(sqrt(N / 2))\<close> for \<open>N\<close> frames in total, not
  clamped: it is at least 1 exactly when there are at least 2 frames.
\<close>

theorem count_clusters_unclamped:
  "2 * (count_clusters trajs_vec) ^ 2 \<le> sum_list (map length trajs_vec)
   \<and> sum_list (map length trajs_vec) < 2 * (count_clusters trajs_vec + 1) ^ 2
   \<and> (1 \<le> count_clusters trajs_vec \<longleftrightarrow> 2 \<le> sum_list (map length trajs_vec))"
proof -
  let ?n = "sum_list (map length trajs_vec)"
  let ?k = "count_clusters trajs_vec"
  have b: "2 * ?k ^ 2 \<le> ?n \<and> ?n < 2 * (?k + 1) ^ 2"
    by (rule count_clusters_bounds)
  have "1 \<le> ?k \<longleftrightarrow> 2 \<le> ?n"
  proof
    assume "1 \<le> ?k"
    then have "1 \<le> ?k ^ 2" by (simp add: Suc_le_eq)
    with b show "2 \<le> ?n" by linarith
  next
    assume "2 \<le> ?n"
    show "1 \<le> ?k"
    proof (rule ccontr)
      assume "\<not> 1 \<le> ?k"
      then have "?k = 0" by simp
      with b have "?n < 2" by simp
      with \<open>2 \<le> ?n\<close> show False by simp
    qed
  qed
  with b show ?thesis by blast
qed

section \<open>Properties of loading and of the directories\<close>








lemma os_mkdir_is_OSError: "os_mkdir fs p = Inl e \<Longrightarrow> is_OSError e"
  by (auto simp: os_mkdir_def is_OSError_def split: if_splits)

lemma os_mkdir_grows: "os_mkdir fs p = Inr fs' \<Longrightarrow> fs' = insert p fs"
  by (auto simp: os_mkdir_def split: if_splits)

lemma os_mkdir_exists: "p \<in> fs \<Longrightarrow> os_mkdir fs p = Inl (Raise ''FileExistsError'')"
  by (simp add: os_mkdir_def)

lemma mkdirs_is_OSError: "mkdirs fs ds = (Some e, fs') \<Longrightarrow> is_OSError e"
  by (induction ds arbitrary: fs) (auto split: sum.splits dest: os_mkdir_is_OSError)

lemma mkdirs_grows: "mkdirs fs ds = (r, fs') \<Longrightarrow> fs \<subseteq> fs'"
proof (induction ds arbitrary: fs)
  case Nil
  then show ?case by simp
next
  case (Cons d ds)
  show ?case
  proof (cases "os_mkdir fs d")
    case (Inl e)
    with Cons.prems show ?thesis by simp
  next
    case (Inr fs1)
    with Cons.prems have "mkdirs fs1 ds = (r, fs')" by simp
    then have "fs1 \<subseteq> fs'" by (rule Cons.IH)
    with os_mkdir_grows [OF Inr] show ?thesis by auto
  qed
qed

lemma mkdirs_existing: "d \<in> set ds \<Longrightarrow> d \<in> fs \<Longrightarrow> \<exists>e. fst (mkdirs fs ds) = Some e"
proof (induction ds arbitrary: fs)
  case Nil
  then show ?case by simp
next
  case (Cons c ds)
  show ?case
  proof (cases "os_mkdir fs c")
    case (Inl e)
    then show ?thesis by simp
  next
    case (Inr fs1)
    then have c: "c \<notin> fs" by (auto simp: os_mkdir_def split: if_splits)
    with Cons.prems have "d \<in> set ds" by auto
    moreover from os_mkdir_grows [OF Inr] Cons.prems(2) have "d \<in> fs1" by simp
    ultimately have "\<exists>e. fst (mkdirs fs1 ds) = Some e" by (rule Cons.IH)
    with Inr show ?thesis by simp
  qed
qed

lemma mkdirs_again:
  assumes "mkdirs fs (d # ds) = (r, fs')"
  shows "\<exists>e. fst (mkdirs fs' (d # ds)) = Some e"
proof (cases "os_mkdir fs d")
  case (Inl e)
  with assms show ?thesis by auto
next
  case (Inr fs1)
  with assms have "mkdirs fs1 ds = (r, fs')" by simp
  then have "fs1 \<subseteq> fs'" by (rule mkdirs_grows)
  with os_mkdir_grows [OF Inr] have "d \<in> fs'" by auto
  then show ?thesis by (simp add: os_mkdir_exists)
qed

lemma make_directories_Some:
  assumes "rundir self = Some rd"
  shows "make_directories self fs =
    (case mkdirs fs [pjoin rd ''trajs'', pjoin rd ''sstates'', pjoin rd ''msms'', pjoin rd ''figs''] of
       (Some e, fs') \<Rightarrow>
         (Inr ('''', False),
          self\<lparr>traj_dir := pjoin rd ''trajs'', sstate_dir := pjoin rd ''sstates'',
               msms_dir := pjoin rd ''msms'', figs_dir := Some (pjoin rd ''figs'')\<rparr>,
          fs', [Warning rd e])
     | (None, fs') \<Rightarrow>
         (Inr (pjoin rd ''trajs'', True),
          self\<lparr>traj_dir := pjoin rd ''trajs'', sstate_dir := pjoin rd ''sstates'',
               msms_dir := pjoin rd ''msms'', figs_dir := Some (pjoin rd ''figs'')\<rparr>,
          fs', []))"
proof -
  let ?ds = "[pjoin rd ''trajs'', pjoin rd ''sstates'', pjoin rd ''msms'', pjoin rd ''figs'']"
  obtain r fs' where m: "mkdirs fs ?ds = (r, fs')" by (cases "mkdirs fs ?ds")
  have os: "is_OSError e" if "r = Some e" for e
    using m that mkdirs_is_OSError by blast
  show ?thesis
    unfolding make_directories_def Let_def using assms m os
    by (cases r) (simp_all del: mkdirs.simps)
qed

lemma run_first:
  "fst (make_directories run_params {''run''}) = Inr (''run/trajs'', True)"
  by code_simp

lemma run_second:
  "fst (make_directories run_params {''run'', ''run/trajs'', ''run/sstates'', ''run/msms'', ''run/figs''})
     = Inr ('''', False)"
  by code_simp

lemma run_rundir: "rundir run_params = Some ''run''"
  by (simp add: run_params_def AdaptiveParams_init_def)

lemma run_layout_exists:
  "pjoin ''run'' ''trajs'' \<in> {''run'', ''run/trajs'', ''run/sstates'', ''run/msms'', ''run/figs''}"
  by (simp add: pjoin_def)

text \<open>
  C9: with \<open>rundir\<close> set, \<open>make_directories\<close> raises nothing. When a directory of the
  layout exists already, it returns \<open>('', False)\<close> and logs one warning; this is what a
  second call does after any first call.
\<close>

theorem make_directories_no_raise:
  assumes "rundir self = Some rd"
  shows "(\<exists>res. fst (make_directories self fs) = Inr res)
       \<and> (pjoin rd ''trajs'' \<in> fs \<or> pjoin rd ''sstates'' \<in> fs \<or> pjoin rd ''msms'' \<in> fs
            \<or> pjoin rd ''figs'' \<in> fs
          \<longrightarrow> fst (make_directories self fs) = Inr ('''', False)
              \<and> (\<exists>e. snd (snd (snd (make_directories self fs))) = [Warning rd e]))
       \<and> (case make_directories self fs of
            (res, self1, fs1, lg) \<Rightarrow>
              fst (make_directories self1 fs1) = Inr ('''', False)
              \<and> (\<exists>e. snd (snd (snd (make_directories self1 fs1))) = [Warning rd e]))"
proof -
  let ?ds = "[pjoin rd ''trajs'', pjoin rd ''sstates'', pjoin rd ''msms'', pjoin rd ''figs'']"
  let ?self1 = "self\<lparr>traj_dir := pjoin rd ''trajs'', sstate_dir := pjoin rd ''sstates'',
               msms_dir := pjoin rd ''msms'', figs_dir := Some (pjoin rd ''figs'')\<rparr>"
  note md = make_directories_Some [OF assms]
  have fails: "fst (make_directories s f) = Inr ('''', False)
        \<and> (\<exists>e. snd (snd (snd (make_directories s f))) = [Warning rd e])"
    if "rundir s = Some rd" and "\<exists>e. fst (mkdirs f ?ds) = Some e" for s f
  proof -
    from that(2) obtain e f' where "mkdirs f ?ds = (Some e, f')"
      by (cases "mkdirs f ?ds") auto
    then show ?thesis
      unfolding make_directories_Some [OF that(1)] by (simp del: mkdirs.simps)
  qed
  have a: "\<exists>res. fst (make_directories self fs) = Inr res"
    unfolding md by (cases "mkdirs fs ?ds") (auto simp del: mkdirs.simps split: option.splits)
  have b: "fst (make_directories self fs) = Inr ('''', False)
        \<and> (\<exists>e. snd (snd (snd (make_directories self fs))) = [Warning rd e])"
    if "pjoin rd ''trajs'' \<in> fs \<or> pjoin rd ''sstates'' \<in> fs \<or> pjoin rd ''msms'' \<in> fs
            \<or> pjoin rd ''figs'' \<in> fs"
  proof -
    from that obtain d where "d \<in> set ?ds" and "d \<in> fs" by auto
    then have "\<exists>e. fst (mkdirs fs ?ds) = Some e" by (rule mkdirs_existing)
    with assms show ?thesis by (rule fails)
  qed
  obtain r fs1 where m: "mkdirs fs ?ds = (r, fs1)" by (cases "mkdirs fs ?ds")
  then have again: "\<exists>e. fst (mkdirs fs1 ?ds) = Some e" by (rule mkdirs_again)
  have r1: "rundir ?self1 = Some rd" using assms by simp
  have c: "case make_directories self fs of
            (res, self1, fs1, lg) \<Rightarrow>
              fst (make_directories self1 fs1) = Inr ('''', False)
              \<and> (\<exists>e. snd (snd (snd (make_directories self1 fs1))) = [Warning rd e])"
    unfolding md m using fails [OF r1 again] by (cases r) simp_all
  from a b c show ?thesis by blast
qed

theorem make_directories_no_raise_witness:
  "rundir run_params = Some ''run''
   \<and> fst (make_directories run_params {''run''}) = Inr (''run/trajs'', True)
   \<and> pjoin ''run'' ''trajs'' \<in> {''run'', ''run/trajs'', ''run/sstates'', ''run/msms'', ''run/figs''}
   \<and> fst (make_directories run_params
             {''run'', ''run/trajs'', ''run/sstates'', ''run/msms'', ''run/figs''})
       = Inr ('''', False)
   \<and> (\<exists>e. snd (snd (snd (make_directories run_params
               {''run'', ''run/trajs'', ''run/sstates'', ''run/msms'', ''run/figs''})))
            = [Warning ''run'' e])"
  using make_directories_no_raise [OF run_rundir,
      of "{''run'', ''run/trajs'', ''run/sstates'', ''run/msms'', ''run/figs''}"]
    run_rundir run_first run_layout_exists
  by blast

end
